theory Spec2Isabelle
  imports Main
begin

section \<open>JavaScript strings\<close>

text \<open>
  A JavaScript string is modelled as a \<open>string\<close> (a list of 8-bit characters): the
  protocol is line-oriented text and every character the code tests for (\<open>.\<close>, CR, LF,
  TAB, space, \<open>:\<close>) is below 256. Chunks are taken as already decoded text.
\<close>

abbreviation CR :: char where "CR \<equiv> CHR 0x0D"
abbreviation LF :: char where "LF \<equiv> CHR 0x0A"
abbreviation TAB :: char where "TAB \<equiv> CHR 0x09"
abbreviation CRLF :: string where "CRLF \<equiv> [CR, LF]"

text \<open>The terminator the framer looks for, \<open>'.\r\n'\<close>.\<close>

abbreviation terminator :: string where "terminator \<equiv> [CHR ''.'', CR, LF]"

text \<open>
  \<open>String.prototype.trim\<close> removes white space and line terminators from both ends.
  Of the characters below 256 these are TAB, LF, VT, FF, CR, space and NBSP.
\<close>

definition is_space :: "char \<Rightarrow> bool" where
  "is_space c \<longleftrightarrow> c \<in> {CHR 0x09, CHR 0x0A, CHR 0x0B, CHR 0x0C, CHR 0x0D, CHR 0x20, CHR 0xA0}"

definition trim :: "string \<Rightarrow> string" where
  "trim s = rev (dropWhile is_space (rev (dropWhile is_space s)))"

text \<open>
  \<open>s.split(sep)\<close> with a string separator: the pieces between the occurrences of
  \<open>sep\<close>, found from the left. The empty string splits into one empty piece; with the
  empty separator the string splits into its characters.
\<close>

function split :: "string \<Rightarrow> string \<Rightarrow> string list" where
  "split sep [] = (if sep = [] then [] else [[]])"
| "split sep (c # cs) =
     (if sep = [] then map (\<lambda>x. [x]) (c # cs)
      else if take (length sep) (c # cs) = sep
        then [] # split sep (drop (length sep) (c # cs))
      else (case split sep cs of
              [] \<Rightarrow> [[c]]
            | p # ps \<Rightarrow> (c # p) # ps))"
  by pat_completeness auto
termination
  by (relation "measure (\<lambda>(sep, s). length s)") auto

text \<open>Decimal digits and the number a run of digits denotes.\<close>

definition is_digit :: "char \<Rightarrow> bool" where
  "is_digit c \<longleftrightarrow> 48 \<le> (of_char c :: nat) \<and> (of_char c :: nat) \<le> 57"

definition digits_value :: "string \<Rightarrow> nat" where
  "digits_value ds = foldl (\<lambda>a c. 10 * a + (of_char c - 48)) 0 ds"

text \<open>\<open>s.substr(-3)\<close>: the last three characters, the whole string when it is shorter.\<close>

definition substr_last3 :: "string \<Rightarrow> string" where
  "substr_last3 s = drop (length s - 3) s"

text \<open>\<open>s.slice(0, -3)\<close>: all but the last three characters, empty when it is shorter.\<close>

definition slice_but3 :: "string \<Rightarrow> string" where
  "slice_but3 s = take (length s - 3) s"

section \<open>The multi-line framer (lib/streams/multiline.js)\<close>

text \<open>
  The state of one \<open>MultilineStream\<close>: the closure variable \<open>buffer\<close>, the items pushed
  to the readable side so far (object mode, so the empty string is an item like any
  other), and whether \<open>this.end()\<close> has been called.
\<close>

record multiline_stream =
  buffer :: string
  pushed :: "string list"
  ended :: bool

definition new_stream :: multiline_stream where
  "new_stream = \<lparr>buffer = [], pushed = [], ended = False\<rparr>"

text \<open>\<open>_transform(chunk, encoding, callback)\<close>.\<close>

definition transform :: "multiline_stream \<Rightarrow> string \<Rightarrow> multiline_stream" where
  "transform s chunk =
     (let b = buffer s @ chunk in
      if terminator = substr_last3 b
      then \<lparr>buffer = b,
            pushed = pushed s @ split CRLF (trim (slice_but3 b)),
            ended = True\<rparr>
      else s\<lparr>buffer := b\<rparr>)"

text \<open>
  Writing a chunk to the stream runs \<open>_transform\<close> on it; once \<open>end()\<close> has been
  called the writable side refuses every further chunk (write after end), so
  \<open>_transform\<close> is not run again.
\<close>

definition stream_write :: "multiline_stream \<Rightarrow> string \<Rightarrow> multiline_stream" where
  "stream_write s chunk = (if ended s then s else transform s chunk)"

text \<open>Delivering a sequence of chunks, in order, to a fresh or running stream.\<close>

fun feed :: "multiline_stream \<Rightarrow> string list \<Rightarrow> multiline_stream" where
  "feed s [] = s"
| "feed s (chunk # chunks) = feed (stream_write s chunk) chunks"

section \<open>The session controller\<close>

subsection \<open>Responses, errors and JavaScript values\<close>

text \<open>
  A parsed response, as the callback of \<open>getResponse\<close> receives it: the status code,
  the rest of the status line, and the lines of a multi-line response.
\<close>

record response =
  status :: int
  message :: string
  lines :: "string list"

text \<open>
  Modelled from the spec: the status constants of the \<open>Response\<close> module
  (\<open>./response\<close>), whose source is not part of the files at hand. The specification
  gives 430 for no such article, 221 for article retrieved, 411 for no such group and
  211 for group selected.
\<close>

definition NO_SUCH_ARTICLE :: int where "NO_SUCH_ARTICLE = 430"
definition ARTICLE_RETRIEVED :: int where "ARTICLE_RETRIEVED = 221"
definition NO_SUCH_GROUP :: int where "NO_SUCH_GROUP = 411"
definition GROUP_SELECTED :: int where "GROUP_SELECTED = 211"

text \<open>
  Errors are values: \<open>new Error(msg)\<close>, and the \<open>TypeError\<close> the engine throws when a
  method is called on \<open>undefined\<close>. An error of the transport or of the pipeline
  reaches the operations as a value of this type and is handed on unchanged.
\<close>

datatype js_error = Error string | TypeError

text \<open>A string-valued property that may be \<open>undefined\<close>.\<close>

datatype jsval = Undefined | Str string

text \<open>
  How \<open>xover\<close> and \<open>xzver\<close> complete: the caller's callback is called with an error or
  with a result. An exception thrown in the handler is caught by the domain of
  \<open>getResponse\<close>, whose error handler calls \<open>done(error, null)\<close>, so it reaches the
  caller's callback as the error.
\<close>

datatype 'a completion = Callback_error js_error | Callback_result 'a

subsection \<open>connect\<close>

text \<open>
  The session object. \<open>isConnected\<close> is not assigned by the constructor, so it is
  \<open>undefined\<close> (\<open>None\<close>) until \<open>connect\<close> or \<open>disconnect\<close> completes.
\<close>

record nntp =
  isConnected :: "bool option"

text \<open>
  The handler \<open>connect\<close> passes to \<open>getResponse\<close>. \<open>getResponse\<close> calls it once, with
  \<open>(error, null)\<close> or with \<open>(null, response)\<close>. The caller's callback runs on the
  session as the handler has left it; what it returns is what the handler returns.
\<close>

definition connect :: "(js_error option \<Rightarrow> response option \<Rightarrow> nntp \<Rightarrow> 'a) \<Rightarrow>
    js_error option \<Rightarrow> response option \<Rightarrow> nntp \<Rightarrow> 'a" where
  "connect callback error response self =
     (let self' = self\<lparr>isConnected := Some True\<rparr>
      in callback error response self')"

subsection \<open>article, head, stat\<close>

record article_result =
  headers :: "string list"
  body :: "string list"

text \<open>The \<open>forEach\<close> over \<open>response.lines\<close>, with its three mutable variables.\<close>

fun article_lines :: "bool \<Rightarrow> string list \<Rightarrow> string list \<Rightarrow> string list \<Rightarrow>
    string list \<times> string list" where
  "article_lines inBody hdrs bdy [] = (hdrs, bdy)"
| "article_lines inBody hdrs bdy (line # rest) =
     (if length (trim line) = 0 \<and> inBody = False
      then article_lines True hdrs bdy rest
      else if inBody
        then article_lines inBody hdrs (bdy @ [line]) rest
      else article_lines inBody (hdrs @ [line]) bdy rest)"

text \<open>
  The handlers below take what \<open>getResponse\<close> delivers (\<open>Inl\<close> an error, \<open>Inr\<close> the
  response) and return what they pass to the caller's callback. \<open>stringify\<close> stands
  for \<open>JSON.stringify\<close> on a \<open>Response\<close> object, whose class is not part of the files
  at hand.
\<close>

definition article :: "(response \<Rightarrow> string) \<Rightarrow> js_error + response \<Rightarrow>
    js_error + article_result" where
  "article stringify r =
     (case r of
        Inl error \<Rightarrow> Inl error
      | Inr response \<Rightarrow>
          if NO_SUCH_ARTICLE = status response
          then Inl (Error ''No such article'')
          else if ARTICLE_RETRIEVED \<noteq> status response
          then Inl (Error (''Unexpected response received: '' @ stringify response))
          else (case article_lines False [] [] (lines response) of
                  (hdrs, bdy) \<Rightarrow> Inr \<lparr>headers = hdrs, body = bdy\<rparr>))"

definition head :: "js_error + response \<Rightarrow> js_error + response" where
  "head r = (case r of Inl error \<Rightarrow> Inl error | Inr response \<Rightarrow> Inr response)"

definition stat :: "js_error + response \<Rightarrow> js_error + response" where
  "stat r = (case r of Inl error \<Rightarrow> Inl error | Inr response \<Rightarrow> Inr response)"

subsection \<open>The reply to article\<close>

text \<open>
  Modelled from the spec: \<open>ResponseStream\<close> in multi-line mode (\<open>./streams/response\<close>),
  whose source is not part of the files at hand. It receives the items the framer
  emits. The first item is the status line, a three-digit code, a space and the
  message; every later item is a line of the response. A first item of another form is
  a parse error (the specification does not give its text).
\<close>

definition response_stream :: "string list \<Rightarrow> js_error + response" where
  "response_stream items =
     (case items of
        [] \<Rightarrow> Inl (Error ''Invalid response'')
      | l # ls \<Rightarrow>
          if 4 \<le> length l \<and> list_all is_digit (take 3 l) \<and> l ! 3 = CHR '' ''
          then Inr \<lparr>status = int (digits_value (take 3 l)), message = drop 4 l, lines = ls\<rparr>
          else Inl (Error ''Invalid response''))"

text \<open>
  \<open>getResponse(true, false, callback)\<close>, as a function of the chunks the socket delivers:
  the socket is piped into a new \<open>MultilineStream\<close> and that into the response stream,
  and \<open>done(null, response)\<close> runs when the pipe ends, which it does when the framer
  ends. \<open>None\<close>: the chunks have not made the framer end, and the callback has not been
  called. The response stream is a parameter; it runs only on the items the framer
  pushes, and the framer pushes them all in the call in which it ends. (Errors of the
  socket are not among the inputs here.)
\<close>

definition getResponse_multiline :: "(string list \<Rightarrow> js_error + response) \<Rightarrow> string list \<Rightarrow>
    (js_error + response) option" where
  "getResponse_multiline responseStream chunks =
     (let s = feed new_stream chunks
      in if ended s then Some (responseStream (pushed s)) else None)"

text \<open>
  \<open>article(messageId, callback)\<close> as a function of the chunks the socket delivers in
  reply: what the caller's callback is called with, if it is called.
\<close>

definition article_reply :: "(string list \<Rightarrow> js_error + response) \<Rightarrow> (response \<Rightarrow> string) \<Rightarrow>
    string list \<Rightarrow> (js_error + article_result) option" where
  "article_reply responseStream stringify chunks =
     map_option (article stringify) (getResponse_multiline responseStream chunks)"

subsection \<open>group\<close>

text \<open>
  A number as \<open>parseInt\<close> returns it: \<open>NaN\<close>, an integer of magnitude up to \<open>2^53\<close>,
  which the JavaScript number holds exactly, or a number of greater magnitude, which is
  the digits rounded to a double and is not computed here. (\<open>-0\<close> is \<open>Num 0\<close>.)
\<close>

datatype js_number = NaN | Num int | Large

text \<open>
  \<open>parseInt(s, 10)\<close>: skip leading white space, read an optional sign, then the longest
  run of decimal digits; \<open>NaN\<close> when there is no digit. \<open>undefined\<close> is first converted
  to the string \<open>undefined\<close>, which has no digit.
\<close>

definition parseInt :: "jsval \<Rightarrow> js_number" where
  "parseInt v =
     (case v of
        Undefined \<Rightarrow> NaN
      | Str s \<Rightarrow>
          (let t = dropWhile is_space s;
               negative = (case t of c # _ \<Rightarrow> c = CHR ''-'' | [] \<Rightarrow> False);
               u = (case t of c # cs \<Rightarrow> if c = CHR ''-'' \<or> c = CHR ''+'' then cs else t
                            | [] \<Rightarrow> t);
               z = takeWhile is_digit u
           in if z = [] then NaN
              else if 2 ^ 53 < digits_value z then Large
              else Num (if negative then - int (digits_value z) else int (digits_value z))))"

text \<open>\<open>a[i]\<close> on an array of strings: \<open>undefined\<close> beyond its end.\<close>

definition at_index :: "string list \<Rightarrow> nat \<Rightarrow> jsval" where
  "at_index a i = (if i < length a then Str (a ! i) else Undefined)"

record group_result =
  group_name :: jsval
  group_count :: js_number
  group_first :: js_number
  group_last :: js_number

text \<open>
  The handler of \<open>group\<close> (\<open>group_op\<close> here: the name \<open>group\<close> is taken by the
  library). The fields \<open>name\<close>, \<open>count\<close>, \<open>first\<close> and \<open>last\<close> of its result are
  prefixed with \<open>group_\<close> for the same reason.
\<close>

definition group_op :: "(response \<Rightarrow> string) \<Rightarrow> js_error + response \<Rightarrow>
    js_error + group_result" where
  "group_op stringify r =
     (case r of
        Inl error \<Rightarrow> Inl error
      | Inr response \<Rightarrow>
          if NO_SUCH_GROUP = status response
          then Inl (Error ''No such group'')
          else if GROUP_SELECTED \<noteq> status response
          then Inl (Error (''Unexpected response received: '' @ stringify response))
          else (let messageParts = split '' '' (message response)
                in Inr \<lparr>group_name = at_index messageParts 3,
                        group_count = parseInt (at_index messageParts 0),
                        group_first = parseInt (at_index messageParts 1),
                        group_last = parseInt (at_index messageParts 2)\<rparr>))"

text \<open>
  The words of the claim about \<open>group\<close>, for comparison: tokens written one after the
  other with one space between them.
\<close>

fun join_spaces :: "string list \<Rightarrow> string" where
  "join_spaces [] = []"
| "join_spaces [t] = t"
| "join_spaces (t # u # ts) = t @ '' '' @ join_spaces (u # ts)"

subsection \<open>xover, xzver and parseOverview\<close>

text \<open>
  An object is the list of its own properties in the order they were created. The
  values here are booleans and strings, never objects.
\<close>

type_synonym 'v obj = "(string \<times> 'v) list"

definition has_own :: "'v obj \<Rightarrow> string \<Rightarrow> bool" where
  "has_own obj k \<longleftrightarrow> k \<in> set (map fst obj)"

text \<open>
  \<open>for (key in obj)\<close> visits the properties whose names are array indices first, in
  ascending order, and then the others in the order they were created. An array index
  is the decimal form, without leading zeros, of a number below \<open>2^32 - 1\<close>.
\<close>

definition is_array_index :: "string \<Rightarrow> bool" where
  "is_array_index k \<longleftrightarrow>
     k \<noteq> [] \<and> list_all is_digit k \<and> (k = ''0'' \<or> hd k \<noteq> CHR ''0'') \<and>
     digits_value k < 2 ^ 32 - 1"

definition for_in :: "'v obj \<Rightarrow> 'v obj" where
  "for_in obj =
     sort_key (\<lambda>(k, v). digits_value k) (filter (\<lambda>(k, v). is_array_index k) obj) @
     filter (\<lambda>(k, v). \<not> is_array_index k) obj"

text \<open>
  \<open>obj[k] = v\<close>: a property that exists keeps its place, a new one comes last.
  Assigning a value that is not an object to \<open>__proto__\<close> does nothing.
\<close>

fun put :: "'v obj \<Rightarrow> string \<Rightarrow> 'v \<Rightarrow> 'v obj" where
  "put [] k v = [(k, v)]"
| "put ((k', v') # ps) k v = (if k' = k then (k, v) # ps else (k', v') # put ps k v)"

definition assign :: "'v obj \<Rightarrow> string \<Rightarrow> 'v \<Rightarrow> 'v obj" where
  "assign obj k v = (if k = ''__proto__'' then obj else put obj k v)"

text \<open>
  \<open>xtend(a, b)\<close>: a fresh object that receives every property of \<open>a\<close>, then every
  property of \<open>b\<close>, each visited with \<open>for (key in source)\<close>.
\<close>

definition xtend :: "'v obj \<Rightarrow> 'v obj \<Rightarrow> 'v obj" where
  "xtend a b = foldl (\<lambda>target (k, v). assign target k v) [] (for_in a @ for_in b)"

text \<open>\<open>s.indexOf(':')\<close>, \<open>-1\<close> when there is none, and \<open>s.substring(i)\<close>.\<close>

fun indexOf :: "string \<Rightarrow> char \<Rightarrow> int" where
  "indexOf [] c = - 1"
| "indexOf (x # xs) c =
     (if x = c then 0 else (let i = indexOf xs c in if i < 0 then - 1 else i + 1))"

definition substring :: "string \<Rightarrow> int \<Rightarrow> string" where
  "substring s i = drop (nat i) s"

text \<open>
  The \<open>for (field in format)\<close> loop of \<open>parseOverview\<close> on one line: \<open>remaining\<close> are the
  properties of \<open>format\<close> still to visit, \<open>parts\<close> is what is left of \<open>messageParts\<close>,
  \<open>msg\<close> the object built so far. \<open>format.hasOwnProperty(field)\<close> throws when \<open>format\<close>
  has a property of its own named \<open>hasOwnProperty\<close>, which is a boolean and not a
  function. \<open>shift()\<close> on the empty array gives \<open>undefined\<close>, and calling \<open>substring\<close>
  on it throws.
\<close>

fun parse_fields :: "bool obj \<Rightarrow> bool obj \<Rightarrow> string list \<Rightarrow> jsval obj \<Rightarrow>
    js_error + jsval obj" where
  "parse_fields format [] parts msg = Inr msg"
| "parse_fields format ((field, full) # remaining) parts msg =
     (if has_own format ''hasOwnProperty'' then Inl TypeError
      else
        (let messagePart = (case parts of [] \<Rightarrow> Undefined | p # _ \<Rightarrow> Str p);
             parts' = (case parts of [] \<Rightarrow> [] | _ # ps \<Rightarrow> ps)
         in if full
            then (case messagePart of
                    Undefined \<Rightarrow> Inl TypeError
                  | Str p \<Rightarrow>
                      parse_fields format remaining parts'
                        (assign msg field
                           (Str (trim (substring p (indexOf p (CHR '':'') + 1))))))
            else parse_fields format remaining parts' (assign msg field messagePart)))"

text \<open>The \<open>forEach\<close> over the lines, pushing one object per line.\<close>

fun parse_lines :: "bool obj \<Rightarrow> jsval obj list \<Rightarrow> string list \<Rightarrow> js_error + jsval obj list" where
  "parse_lines format messages [] = Inr messages"
| "parse_lines format messages (line # rest) =
     (case parse_fields format (for_in format) (split [TAB] line) [] of
        Inl e \<Rightarrow> Inl e
      | Inr msg \<Rightarrow> parse_lines format (messages @ [msg]) rest)"

definition parseOverview :: "string list \<Rightarrow> bool obj \<Rightarrow> js_error + jsval obj list" where
  "parseOverview overview format = parse_lines format [] overview"

text \<open>
  The handlers of \<open>xover\<close> and \<open>xzver\<close>. What \<open>parseOverview\<close> throws reaches the
  caller's callback as the error.
\<close>

definition xover :: "bool obj \<Rightarrow> js_error + response \<Rightarrow> jsval obj list completion" where
  "xover fmt r =
     (let fmt' = xtend [(''number'', False)] fmt
      in case r of
           Inl error \<Rightarrow> Callback_error error
         | Inr response \<Rightarrow>
             (case parseOverview (lines response) fmt' of
                Inl e \<Rightarrow> Callback_error e
              | Inr messages \<Rightarrow> Callback_result messages))"

definition xzver :: "bool obj \<Rightarrow> js_error + response \<Rightarrow> jsval obj list completion" where
  "xzver fmt r =
     (let fmt' = xtend [(''number'', False)] fmt
      in case r of
           Inl error \<Rightarrow> Callback_error error
         | Inr response \<Rightarrow>
             (case parseOverview (lines response) fmt' of
                Inl e \<Rightarrow> Callback_error e
              | Inr messages \<Rightarrow> Callback_result messages))"

text \<open>
  The words of the claim about \<open>xover\<close>, for comparison. The keys of the caller's
  format take the tokens in order: a key marked short takes its token as it is, or
  \<open>undefined\<close> when no token is left; a key marked full takes the text after the first
  colon of its token, trimmed (the whole token when it has no colon).
\<close>

definition after_first_colon :: "string \<Rightarrow> string" where
  "after_first_colon t =
     (if CHR '':'' \<in> set t then tl (dropWhile (\<lambda>c. c \<noteq> CHR '':'') t) else t)"

fun fields_in_order :: "bool obj \<Rightarrow> string list \<Rightarrow> jsval obj" where
  "fields_in_order [] tokens = []"
| "fields_in_order ((k, full) # fmt) [] = (k, Undefined) # fields_in_order fmt []"
| "fields_in_order ((k, full) # fmt) (t # ts) =
     (k, Str (if full then trim (after_first_colon t) else t)) # fields_in_order fmt ts"

text \<open>A key marked full is reached when no token is left.\<close>

fun full_field_without_token :: "bool obj \<Rightarrow> string list \<Rightarrow> bool" where
  "full_field_without_token [] tokens = False"
| "full_field_without_token ((k, full) # fmt) [] = (full \<or> full_field_without_token fmt [])"
| "full_field_without_token ((k, full) # fmt) (t # ts) = full_field_without_token fmt ts"

section \<open>Properties of the multi-line framer\<close>

subsection \<open>Splitting and trimming\<close>

lemma split_no_separator: "CR \<notin> set l \<Longrightarrow> split CRLF l = [l]"
  by (induction l) auto

lemma split_first_line:
  "CR \<notin> set l \<Longrightarrow> split CRLF (l @ CR # LF # rest) = l # split CRLF rest"
  by (induction l) auto

lemma split_joined_lines:
  "\<forall>l \<in> set ls. CR \<notin> set l \<Longrightarrow> CR \<notin> set l' \<Longrightarrow>
   split CRLF (concat (map (\<lambda>l. l @ CRLF) ls) @ l') = ls @ [l']"
  by (induction ls) (simp_all add: split_no_separator split_first_line)

lemma trim_trailing_spaces:
  assumes "s \<noteq> []" and "\<not> is_space (hd s)" and "\<not> is_space (last s)"
    and "\<forall>c \<in> set w. is_space c"
  shows "trim (s @ w) = s"
proof -
  from assms(1,2) have "dropWhile is_space (s @ w) = s @ w"
    by (cases s) simp_all
  moreover have "dropWhile is_space (rev w @ rev s) = dropWhile is_space (rev s)"
    by (rule dropWhile_append2) (use assms(4) in simp)
  moreover from assms(1,3) have "dropWhile is_space (rev s) = rev s"
    by (cases s rule: rev_cases) simp_all
  ultimately show ?thesis
    by (simp add: trim_def)
qed

lemma substr_last3_terminator: "substr_last3 (s @ terminator) = terminator"
  by (simp add: substr_last3_def)

lemma slice_but3_terminator: "slice_but3 (s @ terminator) = s"
  by (simp add: slice_but3_def)

text \<open>
  The text of a sequence of lines on the wire: each line followed by CR LF. When no
  line holds a CR, the first line starts and the last line ends with a character that
  is not white space, trimming the text and splitting it at CR LF gives the lines back.
\<close>

lemma split_trim_wire_lines:
  assumes "ls \<noteq> []"
    and "\<forall>l \<in> set ls. CR \<notin> set l"
    and "hd ls \<noteq> []" and "\<not> is_space (hd (hd ls))"
    and "last ls \<noteq> []" and "\<not> is_space (last (last ls))"
  shows "split CRLF (trim (concat (map (\<lambda>l. l @ CRLF) ls))) = ls"
proof -
  let ?init = "concat (map (\<lambda>l. l @ CRLF) (butlast ls))"
  let ?s = "?init @ last ls"
  from assms(1) have ls: "ls = butlast ls @ [last ls]" by simp
  have wire: "concat (map (\<lambda>l. l @ CRLF) ls) = ?s @ CRLF"
    by (subst ls) simp
  have ne: "?s \<noteq> []" using assms(5) by simp
  have hd: "hd ?s = hd (hd ls)"
  proof (cases "butlast ls")
    case Nil
    with ls have "ls = [last ls]" by simp
    then have "hd ls = last ls" by (metis list.sel(1))
    with Nil show ?thesis by simp
  next
    case (Cons a as)
    with ls have "hd ls = a" by (metis append_Cons list.sel(1))
    with Cons assms(3) show ?thesis by simp
  qed
  have last: "last ?s = last (last ls)" using assms(5) by simp
  have "\<forall>c \<in> set CRLF. is_space c" by (simp add: is_space_def)
  with ne hd last assms(4,6) have "trim (?s @ CRLF) = ?s"
    by (intro trim_trailing_spaces) simp_all
  moreover have "split CRLF ?s = butlast ls @ [last ls]"
    using assms(1,2) by (intro split_joined_lines) (auto dest: in_set_butlastD)
  ultimately show ?thesis
    using wire ls by simp
qed

subsection \<open>Chunks\<close>

lemma feed_ended: "ended s \<Longrightarrow> feed s chunks = s"
  by (induction chunks) (simp_all add: stream_write_def)


text \<open>
  As long as the text received so far does not end with the terminator at the end of a
  chunk, the framer only buffers.
\<close>

lemma feed_not_terminated:
  "\<not> ended s \<Longrightarrow>
   \<forall>k. 0 < k \<and> k \<le> length chunks \<longrightarrow>
       substr_last3 (buffer s @ concat (take k chunks)) \<noteq> terminator \<Longrightarrow>
   feed s chunks = s\<lparr>buffer := buffer s @ concat chunks\<rparr>"
proof (induction chunks arbitrary: s)
  case Nil
  then show ?case by simp
next
  case (Cons c cs)
  from Cons.prems(2) [rule_format, of 1]
  have c: "substr_last3 (buffer s @ c) \<noteq> terminator" by simp
  let ?s = "s\<lparr>buffer := buffer s @ c\<rparr>"
  from c Cons.prems(1) have w: "stream_write s c = ?s"
    by (auto simp: stream_write_def transform_def Let_def)
  have "\<forall>k. 0 < k \<and> k \<le> length cs \<longrightarrow>
      substr_last3 (buffer ?s @ concat (take k cs)) \<noteq> terminator"
  proof (intro allI impI)
    fix k assume "0 < k \<and> k \<le> length cs"
    with Cons.prems(2) [rule_format, of "Suc k"]
    show "substr_last3 (buffer ?s @ concat (take k cs)) \<noteq> terminator" by simp
  qed
  with Cons.IH [of ?s] Cons.prems(1) w show ?case by simp
qed



subsection \<open>Chunk boundaries\<close>

text \<open>
  Claim C1. The same bytes, delivered whole or split into chunks, should give the same
  lines. The framer fails this on a reply whose status line ends with a full stop and
  arrives in a chunk of its own: the text \<open>224 ok.\<close> CR LF \<open>1\<close> CR LF \<open>.\<close> CR LF
  delivered whole gives the two lines \<open>224 ok.\<close> and \<open>1\<close>; delivered as the status line
  and then the rest, the framer takes the end of the first chunk for the terminator,
  emits the one line \<open>224 ok\<close> and ends.
\<close>

theorem framer_chunk_boundary_changes_lines:
  "pushed (feed new_stream [''224 ok.'' @ CRLF @ ''1'' @ CRLF @ terminator])
     = [''224 ok.'', ''1''] \<and>
   pushed (feed new_stream [''224 ok.'' @ CRLF, ''1'' @ CRLF @ terminator])
     = [''224 ok'']"
  by (simp add: new_stream_def stream_write_def transform_def substr_last3_def
      slice_but3_def trim_def is_space_def)

subsection \<open>Dot-stuffed lines\<close>




subsection \<open>The empty body\<close>

text \<open>
  Claim C3, as stated: when the text received is the terminator alone, no line is
  emitted. It is not so: one item is emitted.
\<close>

theorem framer_empty_body_counterexample:
  "pushed (feed new_stream [terminator]) \<noteq> []"
  by (simp add: new_stream_def stream_write_def transform_def substr_last3_def
      slice_but3_def trim_def)

text \<open>The terminator alone, in whatever chunks it arrives.\<close>

lemma feed_terminator_only:
  "\<not> ended s \<Longrightarrow> buffer s \<noteq> terminator \<Longrightarrow> buffer s @ concat chunks = terminator \<Longrightarrow>
   feed s chunks = \<lparr>buffer = terminator, pushed = pushed s @ [[]], ended = True\<rparr>"
proof (induction chunks arbitrary: s)
  case Nil
  then show ?case by simp
next
  case (Cons c cs)
  let ?b = "buffer s @ c"
  from Cons.prems(3) have whole: "?b @ concat cs = terminator" by simp
  then have "length ?b \<le> 3"
    by (metis length_append le_add1 length_Cons list.size(3) numeral_3_eq_3)
  then have last3: "substr_last3 ?b = ?b"
    by (simp add: substr_last3_def)
  show ?case
  proof (cases "?b = terminator")
    case True
    with last3 Cons.prems(1) have "stream_write s c =
        \<lparr>buffer = terminator, pushed = pushed s @ split CRLF (trim (slice_but3 terminator)),
         ended = True\<rparr>"
      by (simp add: stream_write_def transform_def Let_def)
    then have "stream_write s c = \<lparr>buffer = terminator, pushed = pushed s @ [[]], ended = True\<rparr>"
      by (simp add: slice_but3_def trim_def)
    then show ?thesis by (simp add: feed_ended)
  next
    case False
    with last3 Cons.prems(1) have w: "stream_write s c = s\<lparr>buffer := ?b\<rparr>"
      by (auto simp: stream_write_def transform_def Let_def)
    from False whole Cons.prems(1) Cons.IH [of "s\<lparr>buffer := ?b\<rparr>"] w
    show ?thesis by simp
  qed
qed

text \<open>
  Claim C3, amended. When the text received is the terminator alone, in whatever chunks
  it arrives, the framer emits exactly one item, the empty string, and ends.
\<close>

theorem framer_empty_body_one_empty_line:
  assumes "concat chunks = terminator"
  shows "pushed (feed new_stream chunks) = [[]] \<and> ended (feed new_stream chunks)"
  using assms feed_terminator_only [of new_stream chunks]
  by (simp add: new_stream_def)

theorem framer_empty_body_one_empty_line_witness:
  "pushed (feed new_stream [''.'', [CR], [LF]]) = [[]] \<and>
   ended (feed new_stream [''.'', [CR], [LF]])"
  using framer_empty_body_one_empty_line [of "[''.'', [CR], [LF]]"]
  by simp

text \<open>
  In the pipeline the framer also receives the status line, which comes first. A reply
  with no body line, the status line and then the terminator, gives the status line
  alone: no blank line follows it.
\<close>

lemma framer_status_line_then_terminator:
  assumes "s \<noteq> []" and "CR \<notin> set s" and "\<not> is_space (hd s)" and "\<not> is_space (last s)"
  shows "pushed (feed new_stream [s @ CRLF @ terminator]) = [s]"
proof -
  have "split CRLF (trim (concat (map (\<lambda>l. l @ CRLF) [s]))) = [s]"
    using assms by (intro split_trim_wire_lines) simp_all
  moreover have "pushed (feed new_stream [(s @ CRLF) @ terminator])
      = split CRLF (trim (slice_but3 ((s @ CRLF) @ terminator)))"
    using substr_last3_terminator [of "s @ CRLF"]
    by (simp add: new_stream_def stream_write_def transform_def Let_def)
  ultimately show ?thesis
    using slice_but3_terminator [of "s @ CRLF"] by simp
qed

section \<open>Properties of the session controller\<close>

subsection \<open>connect\<close>

text \<open>
  Claim C10. Whatever \<open>getResponse\<close> delivers to the handler of \<open>connect\<close> (an error or
  the greeting), the handler sets \<open>isConnected\<close> to true and only then calls the
  caller's callback, with the outcome unchanged: a callback that reads the flag reads
  true, and any callback runs on the session with the flag set.
\<close>

theorem connect_sets_isConnected_before_callback:
  "connect (\<lambda>e r s. (e, r, isConnected s)) error response self = (error, response, Some True) \<and>
   connect callback error response self
     = callback error response (self\<lparr>isConnected := Some True\<rparr>)"
  by (simp add: connect_def)

subsection \<open>article\<close>

lemma article_lines_in_body:
  "article_lines True hdrs bdy ls = (hdrs, bdy @ ls)"
  by (induction ls arbitrary: bdy) simp_all

lemma article_lines_in_headers:
  "\<forall>h \<in> set hs. trim h \<noteq> [] \<Longrightarrow>
   article_lines False hdrs bdy (hs @ rest) = article_lines False (hdrs @ hs) bdy rest"
  by (induction hs arbitrary: hdrs) simp_all

text \<open>
  The handler alone: a response with status 430, once delivered to it, becomes the
  error \<open>No such article\<close>.
\<close>

lemma article_handler_430:
  assumes "status response = 430"
  shows "article stringify (Inr response) = Inl (Error ''No such article'')"
  using assms by (simp add: article_def NO_SUCH_ARTICLE_def)

text \<open>
  The handler alone: when the lines delivered to it are a block of non-blank header
  lines, one blank line and then any lines, the result has the header block as
  \<open>headers\<close> and the lines after the blank line as \<open>body\<close>.
\<close>

lemma article_handler_splits:
  assumes "status response = ARTICLE_RETRIEVED"
    and "lines response = hs @ [blank] @ bs"
    and "\<forall>h \<in> set hs. trim h \<noteq> []"
    and "trim blank = []"
  shows "article stringify (Inr response) = Inr \<lparr>headers = hs, body = bs\<rparr>"
proof -
  have "article_lines False [] [] (lines response) = article_lines False hs [] (blank # bs)"
    using assms(2) article_lines_in_headers [OF assms(3), of "[]" "[]" "blank # bs"] by simp
  also have "\<dots> = article_lines True hs [] bs"
    using assms(4) by simp
  also have "\<dots> = (hs, bs)"
    by (simp add: article_lines_in_body)
  finally show ?thesis
    using assms(1) by (simp add: article_def NO_SUCH_ARTICLE_def ARTICLE_RETRIEVED_def)
qed

text \<open>A text that ends with the terminator holds a full stop.\<close>

lemma substr_last3_full_stop: "substr_last3 s = terminator \<Longrightarrow> CHR ''.'' \<in> set s"
proof -
  assume "substr_last3 s = terminator"
  then have "CHR ''.'' \<in> set (drop (length s - 3) s)"
    by (simp add: substr_last3_def)
  then show ?thesis
    by (rule in_set_dropD)
qed

lemma feed_without_full_stop:
  assumes "CHR ''.'' \<notin> set (concat chunks)"
  shows "feed new_stream chunks = new_stream\<lparr>buffer := concat chunks\<rparr>"
proof -
  have "\<forall>k. 0 < k \<and> k \<le> length chunks \<longrightarrow>
      substr_last3 (buffer new_stream @ concat (take k chunks)) \<noteq> terminator"
  proof (intro allI impI notI)
    fix k assume "substr_last3 (buffer new_stream @ concat (take k chunks)) = terminator"
    then have "CHR ''.'' \<in> set (concat (take k chunks))"
      using substr_last3_full_stop [of "concat (take k chunks)"] by (simp add: new_stream_def)
    then have "CHR ''.'' \<in> set (concat chunks)"
      by (auto dest: in_set_takeD)
    with assms show False by simp
  qed
  then have "feed new_stream chunks = new_stream\<lparr>buffer := buffer new_stream @ concat chunks\<rparr>"
    by (intro feed_not_terminated) (simp_all add: new_stream_def)
  then show ?thesis by (simp add: new_stream_def)
qed

text \<open>
  Claim C7. A response with status 430 should resolve \<open>article\<close> with the
  no-such-article error. \<open>article\<close> awaits its reply through the multi-line framer,
  and the reply with status 430 is the status line alone, with no terminator after it:
  the framer never ends, the response never reaches the handler, and the caller's
  callback is not called at all. This is so for every reply that holds no full stop,
  in whatever chunks it arrives and whatever the response stream does.
\<close>

theorem article_reply_without_full_stop_unresolved:
  assumes "CHR ''.'' \<notin> set (concat chunks)"
  shows "article_reply responseStream stringify chunks = None"
  using feed_without_full_stop [OF assms]
  by (simp add: article_reply_def getResponse_multiline_def new_stream_def)

theorem article_reply_without_full_stop_unresolved_witness:
  "article_reply response_stream (\<lambda>_. ''{}'') [''430 No such article'' @ CRLF] = None \<and>
   article_reply response_stream (\<lambda>_. ''{}'') [''430 No '', ''such article'', CRLF] = None"
  using article_reply_without_full_stop_unresolved
      [of "[''430 No such article'' @ CRLF]" response_stream "\<lambda>_. ''{}''"]
    article_reply_without_full_stop_unresolved
      [of "[''430 No '', ''such article'', CRLF]" response_stream "\<lambda>_. ''{}''"]
  by simp

text \<open>
  The same reply resolves the operation, with the no-such-article error, when the
  server ends the status line with a full stop.
\<close>

lemma article_reply_430_with_full_stop:
  "article_reply response_stream stringify [''430 No such article.'' @ CRLF]
     = Some (Inl (Error ''No such article''))"
  by (simp add: article_reply_def getResponse_multiline_def response_stream_def article_def
      NO_SUCH_ARTICLE_def new_stream_def stream_write_def transform_def
      substr_last3_def slice_but3_def trim_def is_space_def is_digit_def digits_value_def)

text \<open>
  Claim C8. Every line after the first blank line, later blank lines included, should
  be in \<open>body\<close>. The handler does that with the lines it is given: from the header
  \<open>Subject: hi\<close>, a blank line, \<open>one\<close> and a blank line it makes the body \<open>one\<close>, blank
  line. But the lines reach it through the framer, which trims the whole text before
  it splits it, so the blank lines that end an article are lost: the reply with those
  lines on the wire resolves \<open>article\<close> with the body \<open>one\<close> alone.
\<close>

theorem article_reply_loses_final_blank_line:
  "article stringify
     (Inr \<lparr>status = 221, message = ''0 <a@b>'', lines = [''Subject: hi'', '''', ''one'', '''']\<rparr>)
     = Inr \<lparr>headers = [''Subject: hi''], body = [''one'', '''']\<rparr> \<and>
   article_reply response_stream stringify
     [''221 0 <a@b>'' @ CRLF @ ''Subject: hi'' @ CRLF @ CRLF @ ''one'' @ CRLF @ CRLF @ terminator]
     = Some (Inr \<lparr>headers = [''Subject: hi''], body = [''one'']\<rparr>)"
  by (simp add: article_reply_def getResponse_multiline_def response_stream_def article_def
      NO_SUCH_ARTICLE_def ARTICLE_RETRIEVED_def new_stream_def stream_write_def transform_def
      substr_last3_def slice_but3_def trim_def is_space_def is_digit_def digits_value_def)

text \<open>
  With a body line that is not blank at the end, the blank lines inside the body are
  kept.
\<close>

lemma article_reply_keeps_inner_blank_line:
  "article_reply response_stream stringify
     [''221 0 <a@b>'' @ CRLF @ ''Subject: hi'' @ CRLF @ CRLF @ ''one'' @ CRLF @ CRLF @
      ''two'' @ CRLF @ terminator]
     = Some (Inr \<lparr>headers = [''Subject: hi''], body = [''one'', '''', ''two'']\<rparr>)"
  by (simp add: article_reply_def getResponse_multiline_def response_stream_def article_def
      NO_SUCH_ARTICLE_def ARTICLE_RETRIEVED_def new_stream_def stream_write_def transform_def
      substr_last3_def slice_but3_def trim_def is_space_def is_digit_def digits_value_def)

subsection \<open>head and stat\<close>

text \<open>
  Claim C5, as stated: \<open>head\<close> and \<open>stat\<close> turn a no-such-article status into the
  no-such-article error. They do not: a response with status 430 reaches the caller as
  the result, not as an error.
\<close>

theorem head_stat_map_status_counterexample:
  "head (Inr \<lparr>status = 430, message = ''No such article'', lines = []\<rparr>)
     = Inr \<lparr>status = 430, message = ''No such article'', lines = []\<rparr> \<and>
   stat (Inr \<lparr>status = 430, message = ''No such article'', lines = []\<rparr>)
     = Inr \<lparr>status = 430, message = ''No such article'', lines = []\<rparr> \<and>
   head (Inr \<lparr>status = 430, message = ''No such article'', lines = []\<rparr>)
     \<noteq> Inl (Error ''No such article'')"
  by (simp add: head_def stat_def)

text \<open>
  Claim C5, amended. \<open>head\<close> and \<open>stat\<close> look at no status code: every response is
  handed to the caller as the result, unchanged, whatever its status, and an error
  delivered by \<open>getResponse\<close> is handed on as the error, unchanged.
\<close>

theorem head_stat_pass_response_through:
  "head (Inr response) = Inr response \<and> stat (Inr response) = Inr response \<and>
   head (Inl error) = Inl error \<and> stat (Inl error) = Inl error"
  by (simp add: head_def stat_def)

subsection \<open>group\<close>

lemma split_char_no_separator: "c \<notin> set t \<Longrightarrow> split [c] t = [t]"
  by (induction t) auto

lemma split_char_first_token:
  "c \<notin> set t \<Longrightarrow> split [c] (t @ c # rest) = t # split [c] rest"
  by (induction t) auto

lemma split_join_spaces:
  "tokens \<noteq> [] \<Longrightarrow> \<forall>t \<in> set tokens. CHR '' '' \<notin> set t \<Longrightarrow>
   split '' '' (join_spaces tokens) = tokens"
proof (induction tokens rule: join_spaces.induct)
  case 1
  then show ?case by simp
next
  case (2 t)
  then show ?case by (simp add: split_char_no_separator)
next
  case (3 t u ts)
  then show ?case by (simp add: split_char_first_token)
qed

text \<open>
  Claim C6, as stated: a success message with fewer than four tokens resolves \<open>group\<close>
  with a parse error. It does not: the message \<open>3 100\<close> gives a result, with the name
  \<open>undefined\<close> and the last article number \<open>NaN\<close>.
\<close>

theorem group_few_tokens_counterexample:
  "group_op (\<lambda>_. ''{}'') (Inr \<lparr>status = 211, message = ''3 100'', lines = []\<rparr>)
     = Inr \<lparr>group_name = Undefined, group_count = Num 3, group_first = Num 100,
            group_last = NaN\<rparr>"
  by (simp add: group_op_def NO_SUCH_GROUP_def GROUP_SELECTED_def at_index_def parseInt_def
      is_space_def is_digit_def digits_value_def)

text \<open>
  Claim C6, amended. On the success status the message is split at every space: it is
  a sequence of one or more tokens without spaces (empty ones among them, where spaces
  follow one another), with one space between them. The operation always resolves with
  a result, never with a parse error. The count is \<open>parseInt\<close> of the first token; the
  first and the last article number are \<open>parseInt\<close> of the second and the third token,
  and \<open>NaN\<close> when the message has no such token; the name is the fourth token, and
  \<open>undefined\<close> when there are fewer than four; tokens after the fourth are ignored.
\<close>

theorem group_splits_message_at_spaces:
  assumes "status response = GROUP_SELECTED"
    and "tokens \<noteq> []"
    and "\<forall>t \<in> set tokens. CHR '' '' \<notin> set t"
    and "message response = join_spaces tokens"
  shows "group_op stringify (Inr response) =
     Inr \<lparr>group_name = (if 3 < length tokens then Str (tokens ! 3) else Undefined),
          group_count = parseInt (Str (tokens ! 0)),
          group_first = (if 1 < length tokens then parseInt (Str (tokens ! 1)) else NaN),
          group_last = (if 2 < length tokens then parseInt (Str (tokens ! 2)) else NaN)\<rparr>"
proof -
  have "split '' '' (message response) = tokens"
    using assms(2,3,4) by (simp add: split_join_spaces)
  moreover have "parseInt Undefined = NaN"
    by (simp add: parseInt_def)
  moreover from assms(2) have "0 < length tokens"
    by simp
  ultimately show ?thesis
    using assms(1)
    by (simp add: group_op_def NO_SUCH_GROUP_def GROUP_SELECTED_def at_index_def)
qed

theorem group_splits_message_at_spaces_witness:
  "group_op (\<lambda>_. ''{}'')
     (Inr \<lparr>status = 211, message = ''3 100 102 misc.test and more'', lines = []\<rparr>)
     = Inr \<lparr>group_name = Str ''misc.test'', group_count = Num 3, group_first = Num 100,
            group_last = Num 102\<rparr> \<and>
   group_op (\<lambda>_. ''{}'') (Inr \<lparr>status = 211, message = ''7 1'', lines = []\<rparr>)
     = Inr \<lparr>group_name = Undefined, group_count = Num 7, group_first = Num 1,
            group_last = NaN\<rparr>"
  using group_splits_message_at_spaces
      [of "\<lparr>status = 211, message = ''3 100 102 misc.test and more'', lines = []\<rparr>"
          "[''3'', ''100'', ''102'', ''misc.test'', ''and'', ''more'']" "\<lambda>_. ''{}''"]
    group_splits_message_at_spaces
      [of "\<lparr>status = 211, message = ''7 1'', lines = []\<rparr>" "[''7'', ''1'']" "\<lambda>_. ''{}''"]
  by (simp add: GROUP_SELECTED_def parseInt_def is_space_def is_digit_def digits_value_def)

subsection \<open>xover and xzver\<close>

text \<open>
  Claim C4, as stated: with the format \<open>{subject: false, from: true}\<close> the line
  \<open>42\<close> TAB \<open>Hello\<close> TAB \<open>From: a@b\<close> gives \<open>subject\<close> the value \<open>42\<close> and \<open>from\<close> the value
  \<open>a@b\<close>. Neither \<open>xover\<close> nor \<open>parseOverview\<close> on the bare format gives that object.
\<close>

theorem overview_example_counterexample:
  "xover [(''subject'', False), (''from'', True)]
     (Inr \<lparr>status = 224, message = ''overview follows'',
           lines = [''42'' @ [TAB] @ ''Hello'' @ [TAB] @ ''From: a@b'']\<rparr>)
     \<noteq> Callback_result [[(''subject'', Str ''42''), (''from'', Str ''a@b'')]] \<and>
   parseOverview [''42'' @ [TAB] @ ''Hello'' @ [TAB] @ ''From: a@b'']
     [(''subject'', False), (''from'', True)]
     \<noteq> Inr [[(''subject'', Str ''42''), (''from'', Str ''a@b'')]]"
  by (simp add: xover_def xtend_def parseOverview_def substring_def trim_def is_space_def
      for_in_def is_array_index_def is_digit_def assign_def has_own_def)

text \<open>
  Claim C4, amended. \<open>xover\<close> parses the line against the format with \<open>number\<close> put in
  front: the first token \<open>42\<close> is the \<open>number\<close>, the second token \<open>Hello\<close> is the
  \<open>subject\<close>, taken as it is, and the third token gives \<open>from\<close> the text after its
  first colon, trimmed, \<open>a@b\<close>. (\<open>parseOverview\<close> alone, on the format without
  \<open>number\<close>, gives \<open>subject\<close> the value \<open>42\<close> and \<open>from\<close> the value \<open>Hello\<close>.)
\<close>

theorem overview_example:
  "xover [(''subject'', False), (''from'', True)]
     (Inr \<lparr>status = 224, message = ''overview follows'',
           lines = [''42'' @ [TAB] @ ''Hello'' @ [TAB] @ ''From: a@b'']\<rparr>)
     = Callback_result
         [[(''number'', Str ''42''), (''subject'', Str ''Hello''), (''from'', Str ''a@b'')]] \<and>
   parseOverview [''42'' @ [TAB] @ ''Hello'' @ [TAB] @ ''From: a@b'']
     [(''subject'', False), (''from'', True)]
     = Inr [[(''subject'', Str ''42''), (''from'', Str ''Hello'')]]"
  by (simp add: xover_def xtend_def parseOverview_def substring_def trim_def is_space_def
      for_in_def is_array_index_def is_digit_def assign_def has_own_def)

text \<open>Objects whose property names are not array indices are visited as created.\<close>

lemma for_in_no_index:
  assumes "\<forall>k \<in> fst ` set obj. \<not> is_array_index k"
  shows "for_in obj = obj"
proof -
  from assms have "filter (\<lambda>(k, v). is_array_index k) obj = []"
    by (auto simp: filter_empty_conv)
  moreover from assms have "filter (\<lambda>(k, v). \<not> is_array_index k) obj = obj"
    by (auto simp: filter_id_conv)
  ultimately show ?thesis
    by (simp add: for_in_def)
qed

lemma number_no_index: "\<not> is_array_index ''number''"
  by (simp add: is_array_index_def is_digit_def)

lemma put_new_key: "k \<notin> fst ` set obj \<Longrightarrow> put obj k v = obj @ [(k, v)]"
  by (induction obj) auto

lemma assign_new_key:
  "k \<notin> fst ` set obj \<Longrightarrow> k \<noteq> ''__proto__'' \<Longrightarrow> assign obj k v = obj @ [(k, v)]"
  by (simp add: assign_def put_new_key)

lemma foldl_assign_new_keys:
  "distinct (map fst ps) \<Longrightarrow> fst ` set ps \<inter> fst ` set obj = {} \<Longrightarrow>
   ''__proto__'' \<notin> fst ` set ps \<Longrightarrow>
   foldl (\<lambda>target (k, v). assign target k v) obj ps = obj @ ps"
proof (induction ps arbitrary: obj)
  case Nil
  then show ?case by simp
next
  case (Cons p ps)
  obtain k v where p: "p = (k, v)" by (cases p)
  with Cons.prems have k: "k \<notin> fst ` set obj" "k \<noteq> ''__proto__''" by auto
  from Cons.prems p have "fst ` set ps \<inter> fst ` set (obj @ [(k, v)]) = {}"
    by auto
  moreover from Cons.prems have "''__proto__'' \<notin> fst ` set ps" by simp
  ultimately have "foldl (\<lambda>target (k, v). assign target k v) (obj @ [(k, v)]) ps
      = (obj @ [(k, v)]) @ ps"
    using Cons.prems(1) by (intro Cons.IH) simp_all
  with p k show ?case
    by (simp add: assign_new_key)
qed

lemma xtend_number:
  assumes "distinct (map fst fmt)"
    and "\<forall>k \<in> fst ` set fmt. k \<noteq> ''number'' \<and> k \<noteq> ''__proto__'' \<and> \<not> is_array_index k"
  shows "xtend [(''number'', False)] fmt = (''number'', False) # fmt"
proof -
  have "for_in [(''number'', False)] = [(''number'', False :: bool)]"
    by (intro for_in_no_index) (simp add: number_no_index)
  moreover from assms(2) have "for_in fmt = fmt"
    by (intro for_in_no_index) simp
  moreover have "foldl (\<lambda>target (k, v). assign target k v) [] ((''number'', False) # fmt)
      = [] @ (''number'', False) # fmt"
    using assms by (intro foldl_assign_new_keys) auto
  ultimately show ?thesis
    by (simp add: xtend_def)
qed

text \<open>The text after the first colon, as the code takes it.\<close>

lemma indexOf_absent: "c \<notin> set p \<Longrightarrow> indexOf p c = - 1"
  by (induction p) (auto simp: Let_def)

lemma indexOf_present: "c \<in> set p \<Longrightarrow> 0 \<le> indexOf p c"
  by (induction p) (auto simp: Let_def)

lemma drop_indexOf:
  "c \<in> set p \<Longrightarrow> drop (nat (indexOf p c + 1)) p = tl (dropWhile (\<lambda>x. x \<noteq> c) p)"
proof (induction p)
  case Nil
  then show ?case by simp
next
  case (Cons x xs)
  show ?case
  proof (cases "x = c")
    case True
    then show ?thesis by simp
  next
    case False
    with Cons.prems have in_xs: "c \<in> set xs" by simp
    then have pos: "0 \<le> indexOf xs c" by (rule indexOf_present)
    then have "nat (indexOf xs c + 1 + 1) = Suc (nat (indexOf xs c + 1))"
      by simp
    with False pos Cons.IH [OF in_xs] show ?thesis
      by (simp add: Let_def)
  qed
qed

lemma substring_after_colon:
  "substring p (indexOf p (CHR '':'') + 1) = after_first_colon p"
  by (simp add: substring_def after_first_colon_def drop_indexOf indexOf_absent)

text \<open>
  The loop over the fields, for names that are distinct, new to the object built so
  far, and not \<open>__proto__\<close>, in a format without a property \<open>hasOwnProperty\<close>.
\<close>

lemma parse_fields_in_order:
  "\<not> has_own format ''hasOwnProperty'' \<Longrightarrow> distinct (map fst fs) \<Longrightarrow>
   fst ` set fs \<inter> fst ` set msg = {} \<Longrightarrow> ''__proto__'' \<notin> fst ` set fs \<Longrightarrow>
   parse_fields format fs parts msg =
     (if full_field_without_token fs parts then Inl TypeError
      else Inr (msg @ fields_in_order fs parts))"
proof (induction fs arbitrary: parts msg)
  case Nil
  then show ?case by simp
next
  case (Cons p fs)
  obtain field full where p: "p = (field, full)" by (cases p)
  from Cons.prems p have new: "field \<notin> fst ` set msg" "field \<noteq> ''__proto__''"
    by auto
  have step: "parse_fields format fs ps (assign msg field v) =
      (if full_field_without_token fs ps then Inl TypeError
       else Inr (msg @ (field, v) # fields_in_order fs ps))" for ps v
  proof -
    from Cons.prems p have "fst ` set fs \<inter> fst ` set (msg @ [(field, v)]) = {}"
      by auto
    moreover from Cons.prems have "''__proto__'' \<notin> fst ` set fs" by simp
    ultimately have "parse_fields format fs ps (msg @ [(field, v)]) =
        (if full_field_without_token fs ps then Inl TypeError
         else Inr ((msg @ [(field, v)]) @ fields_in_order fs ps))"
      using Cons.prems(1,2) by (intro Cons.IH) simp_all
    with new show ?thesis
      by (simp add: assign_new_key)
  qed
  show ?case
  proof (cases parts)
    case Nil
    with Cons.prems(1) show ?thesis
      unfolding p by (simp add: step)
  next
    case (Cons t ts)
    with Cons.prems(1) show ?thesis
      unfolding p by (simp add: step substring_after_colon)
  qed
qed

lemma split_not_empty: "sep \<noteq> [] \<Longrightarrow> split sep s \<noteq> []"
  by (induction sep s rule: split.induct) (auto split: list.splits)

text \<open>One line, parsed against the format with \<open>number\<close> in front.\<close>

lemma parse_fields_number:
  assumes "distinct (map fst fmt)"
    and "\<forall>k \<in> fst ` set fmt. k \<noteq> ''number'' \<and> k \<noteq> ''hasOwnProperty'' \<and>
           k \<noteq> ''__proto__'' \<and> \<not> is_array_index k"
  shows "parse_fields ((''number'', False) # fmt) (for_in ((''number'', False) # fmt))
           (split [TAB] line) [] =
         (if full_field_without_token fmt (tl (split [TAB] line)) then Inl TypeError
          else Inr ((''number'', Str (hd (split [TAB] line))) #
                    fields_in_order fmt (tl (split [TAB] line))))"
proof -
  let ?format = "(''number'', False) # fmt"
  obtain t ts where ts: "split [TAB] line = t # ts"
    using split_not_empty [of "[TAB]" line] by (cases "split [TAB] line") simp_all
  from assms(2) have visit: "for_in ?format = ?format"
    by (intro for_in_no_index) (simp add: number_no_index)
  from assms(2) have "\<not> has_own ?format ''hasOwnProperty''"
    by (auto simp: has_own_def)
  moreover from assms have "distinct (map fst ?format)"
    by auto
  moreover from assms(2) have "''__proto__'' \<notin> fst ` set ?format"
    by auto
  ultimately have "parse_fields ?format ?format (t # ts) [] =
      (if full_field_without_token ?format (t # ts) then Inl TypeError
       else Inr ([] @ fields_in_order ?format (t # ts)))"
    by (intro parse_fields_in_order) simp_all
  with visit ts show ?thesis
    by simp
qed

lemma parse_lines_rows:
  assumes "\<And>line. parse_fields format (for_in format) (split [TAB] line) [] =
             (if bad line then Inl TypeError else Inr (row line))"
  shows "parse_lines format messages ls =
           (if \<exists>line \<in> set ls. bad line then Inl TypeError
            else Inr (messages @ map row ls))"
  by (induction ls arbitrary: messages) (simp_all add: assms)

text \<open>
  Claim C9, as stated: for every format the first token of a line is returned under
  \<open>number\<close> as it is, and the caller's keys consume the tokens after it. It fails for a
  format that has a \<open>number\<close> key of its own: \<open>xtend\<close> lets the caller's entry replace
  the short marking, so with \<open>{number: true}\<close> the first token \<open>Foo: 1\<close> is returned as
  \<open>1\<close>, and the second token is not used.
\<close>

theorem xover_number_verbatim_counterexample:
  "xover [(''number'', True)]
     (Inr \<lparr>status = 224, message = ''overview follows'',
           lines = [''Foo: 1'' @ [TAB] @ ''Bar: 2'']\<rparr>)
     = Callback_result [[(''number'', Str ''1'')]] \<and>
   xzver [(''number'', True)]
     (Inr \<lparr>status = 224, message = ''overview follows'',
           lines = [''Foo: 1'' @ [TAB] @ ''Bar: 2'']\<rparr>)
     = Callback_result [[(''number'', Str ''1'')]]"
  by (simp add: xover_def xzver_def xtend_def parseOverview_def substring_def trim_def
      is_space_def for_in_def is_array_index_def is_digit_def assign_def has_own_def)

text \<open>
  Claim C9, amended. For every format supplied to \<open>xover\<close> or \<open>xzver\<close> whose keys are
  ordinary field names (none of them is \<open>number\<close>, \<open>hasOwnProperty\<close>, \<open>__proto__\<close> or an
  array index), parsing is performed against the format with \<open>number\<close>, marked short,
  in front. When some response line has no token left for a key marked full, the
  operation resolves with a \<open>TypeError\<close>. Otherwise it resolves with one object per
  response line, in order: the first tab-separated token of the line under \<open>number\<close>,
  as it is, and then the caller's keys, which take the tokens after it in order (a key
  marked short its token as it is, or \<open>undefined\<close> when no token is left; a key marked
  full the text after the first colon of its token, trimmed). \<open>xzver\<close> does as \<open>xover\<close>
  does.
\<close>

theorem xover_number_then_format:
  assumes "distinct (map fst fmt)"
    and "\<forall>k \<in> fst ` set fmt. k \<noteq> ''number'' \<and> k \<noteq> ''hasOwnProperty'' \<and>
           k \<noteq> ''__proto__'' \<and> \<not> is_array_index k"
  shows "xover fmt (Inr response) =
           (if \<exists>line \<in> set (lines response).
                 full_field_without_token fmt (tl (split [TAB] line))
            then Callback_error TypeError
            else Callback_result
                   (map (\<lambda>line. (''number'', Str (hd (split [TAB] line))) #
                                 fields_in_order fmt (tl (split [TAB] line)))
                        (lines response))) \<and>
         xzver fmt (Inr response) = xover fmt (Inr response)"
proof
  have ext: "xtend [(''number'', False)] fmt = (''number'', False) # fmt"
    using assms by (intro xtend_number) simp_all
  have "parse_lines ((''number'', False) # fmt) [] (lines response) =
      (if \<exists>line \<in> set (lines response).
            full_field_without_token fmt (tl (split [TAB] line))
       then Inl TypeError
       else Inr ([] @ map (\<lambda>line. (''number'', Str (hd (split [TAB] line))) #
                                   fields_in_order fmt (tl (split [TAB] line)))
                          (lines response)))"
    by (rule parse_lines_rows) (rule parse_fields_number [OF assms])
  then show "xover fmt (Inr response) =
           (if \<exists>line \<in> set (lines response).
                 full_field_without_token fmt (tl (split [TAB] line))
            then Callback_error TypeError
            else Callback_result
                   (map (\<lambda>line. (''number'', Str (hd (split [TAB] line))) #
                                 fields_in_order fmt (tl (split [TAB] line)))
                        (lines response)))"
    by (simp add: xover_def ext parseOverview_def)
  show "xzver fmt (Inr response) = xover fmt (Inr response)"
    by (simp add: xover_def xzver_def)
qed

theorem xover_number_then_format_witness:
  "xover [(''subject'', False), (''bytes'', True), (''xref'', False)]
     (Inr \<lparr>status = 224, message = ''overview follows'',
           lines = [''7'' @ [TAB] @ ''Hi'' @ [TAB] @ ''Bytes: 10'' @ [TAB] @ ''x'',
                    ''8'' @ [TAB] @ ''Re: Hi'' @ [TAB] @ ''Bytes: 25'']\<rparr>)
     = Callback_result
         [[(''number'', Str ''7''), (''subject'', Str ''Hi''), (''bytes'', Str ''10''),
           (''xref'', Str ''x'')],
          [(''number'', Str ''8''), (''subject'', Str ''Re: Hi''), (''bytes'', Str ''25''),
           (''xref'', Undefined)]] \<and>
   xzver [(''subject'', False), (''bytes'', True)]
     (Inr \<lparr>status = 224, message = ''overview follows'', lines = [''9'' @ [TAB] @ ''Hi'']\<rparr>)
     = Callback_error TypeError"
proof -
  let ?f = "[(''subject'', False), (''bytes'', True), (''xref'', False)]"
  let ?g = "[(''subject'', False), (''bytes'', True)]"
  have f: "distinct (map fst ?f)"
    "\<forall>k \<in> fst ` set ?f. k \<noteq> ''number'' \<and> k \<noteq> ''hasOwnProperty'' \<and>
       k \<noteq> ''__proto__'' \<and> \<not> is_array_index k"
    by (simp_all add: is_array_index_def is_digit_def)
  have g: "distinct (map fst ?g)"
    "\<forall>k \<in> fst ` set ?g. k \<noteq> ''number'' \<and> k \<noteq> ''hasOwnProperty'' \<and>
       k \<noteq> ''__proto__'' \<and> \<not> is_array_index k"
    by (simp_all add: is_array_index_def is_digit_def)
  show ?thesis
    using xover_number_then_format [OF f,
        of "\<lparr>status = 224, message = ''overview follows'',
           lines = [''7'' @ [TAB] @ ''Hi'' @ [TAB] @ ''Bytes: 10'' @ [TAB] @ ''x'',
                    ''8'' @ [TAB] @ ''Re: Hi'' @ [TAB] @ ''Bytes: 25'']\<rparr>"]
      xover_number_then_format [OF g,
        of "\<lparr>status = 224, message = ''overview follows'', lines = [''9'' @ [TAB] @ ''Hi'']\<rparr>"]
    by (simp add: after_first_colon_def trim_def is_space_def)
qed

end
